theory Spec2Isabelle
  imports Main "HOL-Library.Word"
begin

unbundle bit_operations_syntax

section \<open>JavaScript values used by the kernel\<close>

text \<open>
  A JavaScript string is a sequence of UTF-16 code units; \<open>charCodeAt\<close> and
  \<open>split('')\<close> work on code units. String literals of the source are ASCII and are
  written through \<open>str16\<close>.
\<close>

type_synonym jsstring = "16 word list"

definition str16 :: "string \<Rightarrow> jsstring" where
  "str16 s = map (\<lambda>c. word_of_nat (of_char c)) s"

text \<open>
  The values that occur in the arrays of the Hamming codec: numbers (all of them
  integers there), \<open>NaN\<close>, \<open>undefined\<close> (a read past the end of an array) and
  \<open>null\<close> (the absent error position).
\<close>

datatype jsval = Num int | NaN | Undefined | Null

fun ToNumber :: "jsval \<Rightarrow> jsval" where
  "ToNumber Undefined = NaN"
| "ToNumber Null = Num 0"
| "ToNumber v = v"

definition js_add :: "jsval \<Rightarrow> jsval \<Rightarrow> jsval" where
  "js_add a b = (case (ToNumber a, ToNumber b) of (Num x, Num y) \<Rightarrow> Num (x + y) | _ \<Rightarrow> NaN)"

definition js_sub :: "jsval \<Rightarrow> jsval \<Rightarrow> jsval" where
  "js_sub a b = (case (ToNumber a, ToNumber b) of (Num x, Num y) \<Rightarrow> Num (x - y) | _ \<Rightarrow> NaN)"

definition js_mul :: "jsval \<Rightarrow> jsval \<Rightarrow> jsval" where
  "js_mul a b = (case (ToNumber a, ToNumber b) of (Num x, Num y) \<Rightarrow> Num (x * y) | _ \<Rightarrow> NaN)"

text \<open>\<open>a % b\<close>: the remainder has the sign of the dividend; a zero divisor gives \<open>NaN\<close>.\<close>

definition js_rem :: "jsval \<Rightarrow> jsval \<Rightarrow> jsval" where
  "js_rem a b =
     (case (ToNumber a, ToNumber b) of
        (Num x, Num y) \<Rightarrow> (if y = 0 then NaN else Num (sgn x * (\<bar>x\<bar> mod \<bar>y\<bar>)))
      | _ \<Rightarrow> NaN)"

text \<open>\<open>a === b\<close>: no conversion, and \<open>NaN\<close> equals nothing.\<close>

fun strict_eq :: "jsval \<Rightarrow> jsval \<Rightarrow> bool" where
  "strict_eq (Num x) (Num y) = (x = y)"
| "strict_eq Undefined Undefined = True"
| "strict_eq Null Null = True"
| "strict_eq _ _ = False"

subsection \<open>Numbers to strings\<close>

definition digitChar :: "nat \<Rightarrow> 16 word" where
  "digitChar d = (if d < 10 then 0x30 + word_of_nat d else 0x61 + word_of_nat (d - 10))"

function natToString :: "nat \<Rightarrow> nat \<Rightarrow> jsstring" where
  "natToString radix n =
     (if radix < 2 \<or> n < radix then [digitChar n]
      else natToString radix (n div radix) @ [digitChar (n mod radix)])"
  by pat_completeness auto
termination
  by (relation "measure (\<lambda>(radix, n). n)") auto

declare natToString.simps [simp del]

text \<open>\<open>Number.prototype.toString(radix)\<close> on an integer: a minus sign, then the digits,
  letters in lower case.\<close>

definition numToString :: "nat \<Rightarrow> int \<Rightarrow> jsstring" where
  "numToString radix n =
     (if n < 0 then 0x2D # natToString radix (nat (- n)) else natToString radix (nat n))"

text \<open>Conversion to a string inside a template literal.\<close>

fun ToString :: "jsval \<Rightarrow> jsstring" where
  "ToString (Num n) = numToString 10 n"
| "ToString NaN = str16 ''NaN''"
| "ToString Undefined = str16 ''undefined''"
| "ToString Null = str16 ''null''"

text \<open>\<open>Array.prototype.join('')\<close>: \<open>undefined\<close> and \<open>null\<close> elements give the
  empty string.\<close>

fun joinElem :: "jsval \<Rightarrow> jsstring" where
  "joinElem Undefined = []"
| "joinElem Null = []"
| "joinElem v = ToString v"

definition join :: "jsval list \<Rightarrow> jsstring" where
  "join xs = concat (map joinElem xs)"

text \<open>\<open>toUpperCase\<close>, on the ASCII letters: the only strings it is applied to are
  the results of \<open>toString(16)\<close>, made of \<open>-\<close>, digits and \<open>a\<close> to \<open>f\<close>.\<close>

definition toUpperCase :: "jsstring \<Rightarrow> jsstring" where
  "toUpperCase s = map (\<lambda>c. if 0x61 \<le> c \<and> c \<le> 0x7A then c - 0x20 else c) s"

text \<open>\<open>padStart(n, c)\<close> with a one-character filler: nothing is added to a string
  that is already \<open>n\<close> long or longer.\<close>

definition padStart :: "nat \<Rightarrow> 16 word \<Rightarrow> jsstring \<Rightarrow> jsstring" where
  "padStart n c s = replicate (n - length s) c @ s"

subsection \<open>Strings to numbers, arrays\<close>

text \<open>\<open>Number(c)\<close> for a string \<open>c\<close> of one code unit (an element of
  \<open>split('')\<close>): a decimal digit is its value, white space is 0, anything else
  is \<open>NaN\<close>.\<close>

definition isWhiteSpace :: "16 word \<Rightarrow> bool" where
  "isWhiteSpace c \<longleftrightarrow>
     c \<in> {0x9, 0xA, 0xB, 0xC, 0xD, 0x20, 0xA0, 0x1680, 0x2028, 0x2029, 0x202F, 0x205F,
          0x3000, 0xFEFF} \<or> (0x2000 \<le> c \<and> c \<le> 0x200A)"

definition Number :: "16 word \<Rightarrow> jsval" where
  "Number c =
     (if 0x30 \<le> c \<and> c \<le> 0x39 then Num (uint c - 48)
      else if isWhiteSpace c then Num 0 else NaN)"

text \<open>\<open>xs[i]\<close> for a literal index: \<open>undefined\<close> past the end.\<close>

definition elemAt :: "jsval list \<Rightarrow> nat \<Rightarrow> jsval" where
  "elemAt xs i = (if i < length xs then xs ! i else Undefined)"

text \<open>
  \<open>xs[k]\<close> and \<open>xs[k] = v\<close> for a computed key \<open>k\<close>. A non-negative integer is an
  array index: a write past the end extends the array, the holes reading as
  \<open>undefined\<close>. Any other key (\<open>NaN\<close>, a negative number) names an ordinary
  property, which no element read ever sees.
\<close>

definition getKey :: "jsval list \<Rightarrow> jsval \<Rightarrow> jsval" where
  "getKey xs k =
     (case k of
        Num i \<Rightarrow> (if 0 \<le> i \<and> nat i < length xs then xs ! nat i else Undefined)
      | _ \<Rightarrow> Undefined)"

definition setKey :: "jsval list \<Rightarrow> jsval \<Rightarrow> jsval \<Rightarrow> jsval list" where
  "setKey xs k v =
     (case k of
        Num i \<Rightarrow>
          (if i < 0 then xs
           else if nat i < length xs then xs[nat i := v]
           else xs @ replicate (nat i - length xs) Undefined @ [v])
      | _ \<Rightarrow> xs)"

section \<open>Additive checksum (src/utils/hashUtils.ts)\<close>

datatype HashAlgorithm = ADDITIVE

record AdditiveOptions =
  bitWidth :: int
  initialValue :: int

text \<open>
  \<open>a & b\<close>: both operands are converted to 32-bit two's complement integers and the
  result is read as a signed 32-bit integer.
\<close>

definition js_bitand :: "int \<Rightarrow> int \<Rightarrow> int" where
  "js_bitand a b = sint ((word_of_int a :: 32 word) AND word_of_int b)"

text \<open>
  \<^verbatim>\<open>
  function additiveChecksum(message: string, options: AdditiveOptions): string {
    const { bitWidth, initialValue } = options;
    let sum = initialValue;
    for (let i = 0; i < message.length; i++) sum += message.charCodeAt(i);
    let mask = 0xFFFF;
    let pad = 4;
    if (bitWidth === 8) { mask = 0xFF; pad = 2; }
    else if (bitWidth === 32) { mask = 0xFFFFFFFF; pad = 8; }
    return (sum & mask).toString(16).toUpperCase().padStart(pad, '0');
  }
  \<close>
  \<open>sumCodes\<close> is the loop, from the accumulator it starts with. Numbers are integers
  here; the model is exact while the accumulator stays within \<open>2 ^ 53\<close>, where
  JavaScript's numbers hold every integer. Past \<open>2 ^ 53\<close> the code's sum is rounded and
  these integers are no longer the code: every general statement below about the value of a
  sum has the hypothesis \<open>exactSum\<close>, and every evaluation is at an input far inside
  that range. At run time \<open>bitWidth\<close> is any number, so it is an integer and not a
  three-valued type.
\<close>

fun sumCodes :: "int \<Rightarrow> jsstring \<Rightarrow> int" where
  "sumCodes acc [] = acc"
| "sumCodes acc (c # cs) = sumCodes (acc + uint c) cs"

definition maskOf :: "int \<Rightarrow> int" where
  "maskOf bw = (if bw = 8 then 0xFF else if bw = 32 then 0xFFFFFFFF else 0xFFFF)"

definition padOf :: "int \<Rightarrow> nat" where
  "padOf bw = (if bw = 8 then 2 else if bw = 32 then 8 else 4)"

text \<open>The number \<open>sum & mask\<close> that \<open>additiveChecksum\<close> renders.\<close>

definition checksumValue :: "jsstring \<Rightarrow> AdditiveOptions \<Rightarrow> int" where
  "checksumValue message options =
     js_bitand (sumCodes (initialValue options) message) (maskOf (bitWidth options))"

definition additiveChecksum :: "jsstring \<Rightarrow> AdditiveOptions \<Rightarrow> jsstring" where
  "additiveChecksum message options =
     padStart (padOf (bitWidth options)) 0x30
       (toUpperCase (numToString 16 (checksumValue message options)))"

text \<open>
  \<^verbatim>\<open>
  export async function calculateChecksum(data, algorithm, additiveOptions?) {
    if (!data) return '';
    return additiveChecksum(data, additiveOptions || { bitWidth: 16, initialValue: 0 });
  }
  \<close>
  The exported function; the promise is modelled by the value it resolves to. A string is
  falsy exactly when it is empty, and an options object is always truthy.
\<close>

definition calculateChecksum ::
  "jsstring \<Rightarrow> HashAlgorithm \<Rightarrow> AdditiveOptions option \<Rightarrow> jsstring" where
  "calculateChecksum data algorithm additiveOptions =
     (if data = [] then []
      else additiveChecksum data
        (case additiveOptions of
           Some opts \<Rightarrow> opts
         | None \<Rightarrow> \<lparr>bitWidth = 16, initialValue = 0\<rparr>))"

section \<open>Hamming (7,4) (src/utils/hashUtils.ts)\<close>

text \<open>
  \<^verbatim>\<open>
  encode: (data4: string): string => {
    const d = data4.split('').map(Number);
    const p1 = (d[0] + d[1] + d[3]) % 2;
    const p2 = (d[0] + d[2] + d[3]) % 2;
    const p3 = (d[1] + d[2] + d[3]) % 2;
    return the template literal of p1 p2 d[0] p3 d[1] d[2] d[3];
  }
  \<close>
  Neither function checks its argument or throws: every operation they use is defined on
  every value (a read past the end is \<open>undefined\<close>, arithmetic on it is \<open>NaN\<close>), so
  both are total functions on strings.
\<close>

definition Hamming_encode :: "jsstring \<Rightarrow> jsstring" where
  "Hamming_encode data4 =
     (let d = map Number data4;
          p1 = js_rem (js_add (js_add (elemAt d 0) (elemAt d 1)) (elemAt d 3)) (Num 2);
          p2 = js_rem (js_add (js_add (elemAt d 0) (elemAt d 2)) (elemAt d 3)) (Num 2);
          p3 = js_rem (js_add (js_add (elemAt d 1) (elemAt d 2)) (elemAt d 3)) (Num 2)
      in ToString p1 @ ToString p2 @ ToString (elemAt d 0) @ ToString p3 @
         ToString (elemAt d 1) @ ToString (elemAt d 2) @ ToString (elemAt d 3))"

text \<open>
  \<^verbatim>\<open>
  decode: (bits7: string): { corrected: string; errorPos: number | null } => {
    const b = bits7.split('').map(Number);
    const s1 = (b[0] + b[2] + b[4] + b[6]) % 2;
    const s2 = (b[1] + b[2] + b[5] + b[6]) % 2;
    const s3 = (b[3] + b[4] + b[5] + b[6]) % 2;
    const errorPos = s1 + (s2 * 2) + (s3 * 4);
    let corrected = [...b];
    if (errorPos !== 0) {
      corrected[errorPos - 1] = corrected[errorPos - 1] === 0 ? 1 : 0;
    }
    const dataBits = [corrected[2], corrected[4], corrected[5], corrected[6]];
    return { corrected: dataBits.join(''), errorPos: errorPos === 0 ? null : errorPos };
  }
  \<close>
  The result object is the pair of its two fields, \<open>corrected\<close> first. The copy
  \<open>[...b]\<close> is \<open>b\<close> itself, lists being values.
\<close>

definition Hamming_decode :: "jsstring \<Rightarrow> jsstring \<times> jsval" where
  "Hamming_decode bits7 =
     (let b = map Number bits7;
          s1 = js_rem (js_add (js_add (js_add (elemAt b 0) (elemAt b 2)) (elemAt b 4))
                 (elemAt b 6)) (Num 2);
          s2 = js_rem (js_add (js_add (js_add (elemAt b 1) (elemAt b 2)) (elemAt b 5))
                 (elemAt b 6)) (Num 2);
          s3 = js_rem (js_add (js_add (js_add (elemAt b 3) (elemAt b 4)) (elemAt b 5))
                 (elemAt b 6)) (Num 2);
          errorPos = js_add (js_add s1 (js_mul s2 (Num 2))) (js_mul s3 (Num 4));
          corrected =
            (if \<not> strict_eq errorPos (Num 0)
             then setKey b (js_sub errorPos (Num 1))
                    (if strict_eq (getKey b (js_sub errorPos (Num 1))) (Num 0)
                     then Num 1 else Num 0)
             else b);
          dataBits = [elemAt corrected 2, elemAt corrected 4, elemAt corrected 5,
                      elemAt corrected 6]
      in (join dataBits, if strict_eq errorPos (Num 0) then Null else errorPos))"

section \<open>The error-injection view (src/App.tsx)\<close>

record HammingResult =
  original :: jsstring
  encoded :: jsstring
  received :: jsstring
  corrected :: jsstring
  errorPosition :: jsval

text \<open>
  \<^verbatim>\<open>
  const runHamming = () => {
    if (hammingInput.length !== 4) return;
    const encoded = Hamming.encode(hammingInput);
    setHammingResult({ original: hammingInput, encoded, received: encoded,
                       corrected: hammingInput, errorPosition: null });
  };
  \<close>
  \<open>runHamming\<close> reads the state \<open>hammingInput\<close> and replaces the state
  \<open>hammingResult\<close> (absent at the start); a payload that is not four characters long
  changes nothing.
\<close>

definition runHamming :: "jsstring \<Rightarrow> HammingResult option \<Rightarrow> HammingResult option" where
  "runHamming hammingInput hammingResult =
     (if length hammingInput \<noteq> 4 then hammingResult
      else let encoded = Hamming_encode hammingInput
           in Some \<lparr>original = hammingInput, encoded = encoded, received = encoded,
                    corrected = hammingInput, errorPosition = Null\<rparr>)"

text \<open>
  \<^verbatim>\<open>
  const flipBit = (index: number) => {
    if (!hammingResult) return;
    const bits = hammingResult.received.split('');
    bits[index] = bits[index] === '0' ? '1' : '0';
    const newReceived = bits.join('');
    const { corrected, errorPos } = Hamming.decode(newReceived);
    setHammingResult({ ...hammingResult, received: newReceived, corrected,
                       errorPosition: errorPos });
  };
  \<close>
  \<open>flipAt\<close> is the three lines that build the new received word. The index is the
  position of a button of the displayed word, a natural number. Past the end the read is
  \<open>undefined\<close>, so \<open>'0'\<close> is written there, and the holes before it join as empty
  strings.
\<close>

definition flipAt :: "jsstring \<Rightarrow> nat \<Rightarrow> jsstring" where
  "flipAt bits index =
     (if index < length bits
      then bits[index := (if bits ! index = 0x30 then 0x31 else 0x30)]
      else bits @ [0x30])"

definition flipBit :: "nat \<Rightarrow> HammingResult option \<Rightarrow> HammingResult option" where
  "flipBit index hammingResult =
     (case hammingResult of
        None \<Rightarrow> None
      | Some r \<Rightarrow>
          (let newReceived = flipAt (received r) index;
               (corr, errorPos) = Hamming_decode newReceived
           in Some (r\<lparr>received := newReceived, corrected := corr,
                      errorPosition := errorPos\<rparr>)))"

section \<open>Vocabulary of the properties\<close>

text \<open>A strict binary string: every character is \<open>'0'\<close> or \<open>'1'\<close>.\<close>

definition isBinary :: "jsstring \<Rightarrow> bool" where
  "isBinary s \<longleftrightarrow> (\<forall>c \<in> set s. c = 0x30 \<or> c = 0x31)"

text \<open>A bit as a character and as a number, and the bit a binary character stands for.\<close>

definition bitChar :: "bool \<Rightarrow> 16 word" where
  "bitChar b = (if b then 0x31 else 0x30)"

definition bitNum :: "bool \<Rightarrow> jsval" where
  "bitNum b = Num (if b then 1 else 0)"

definition bitOf :: "16 word \<Rightarrow> bool" where
  "bitOf c \<longleftrightarrow> c = 0x31"

text \<open>The exclusive or of three binary characters, as a binary character.\<close>

definition xor3 :: "16 word \<Rightarrow> 16 word \<Rightarrow> 16 word \<Rightarrow> 16 word" where
  "xor3 x y z = bitChar ((bitOf x \<noteq> bitOf y) \<noteq> bitOf z)"

text \<open>The number \<open>s1 + 2 * s2 + 4 * s3\<close> of three syndrome bits.\<close>

definition syndromePos :: "bool \<Rightarrow> bool \<Rightarrow> bool \<Rightarrow> int" where
  "syndromePos s1 s2 s3 =
     (if s1 then 1 else 0) + (if s2 then 2 else 0) + (if s3 then 4 else 0)"

text \<open>
  Reading a checksum string as an upper-case hexadecimal numeral; \<open>None\<close> when a
  character is not one of \<open>0\<close> to \<open>9\<close>, \<open>A\<close> to \<open>F\<close>.
\<close>

definition hexDigit :: "16 word \<Rightarrow> nat option" where
  "hexDigit c =
     (if 0x30 \<le> c \<and> c \<le> 0x39 then Some (unat c - 48)
      else if 0x41 \<le> c \<and> c \<le> 0x46 then Some (unat c - 55)
      else None)"

fun readHex :: "nat \<Rightarrow> jsstring \<Rightarrow> nat option" where
  "readHex acc [] = Some acc"
| "readHex acc (c # cs) =
     (case hexDigit c of None \<Rightarrow> None | Some d \<Rightarrow> readHex (16 * acc + d) cs)"

definition hexValue :: "jsstring \<Rightarrow> nat option" where
  "hexValue s = readHex 0 s"

text \<open>
  The accumulator of \<open>additiveChecksum\<close> is a JavaScript number. Starting from a
  non-negative integer and adding code units, it holds the exact sum as long as the final
  sum is at most \<open>2 ^ 53\<close>; the integers of the model stand for these runs.
\<close>

definition exactSum :: "jsstring \<Rightarrow> AdditiveOptions \<Rightarrow> bool" where
  "exactSum message options \<longleftrightarrow>
     0 \<le> initialValue options \<and> initialValue options + sumCodes 0 message \<le> 2 ^ 53"


section \<open>Arithmetic of the codec on bits\<close>

lemma js_add_Num: "js_add (Num x) (Num y) = Num (x + y)"
  by (simp add: js_add_def)

lemma js_sub_Num: "js_sub (Num x) (Num y) = Num (x - y)"
  by (simp add: js_sub_def)

lemma js_mul_Num: "js_mul (Num x) (Num y) = Num (x * y)"
  by (simp add: js_mul_def)

lemma js_rem_Num2: "0 \<le> x \<Longrightarrow> js_rem (Num x) (Num 2) = Num (x mod 2)"
  by (simp add: js_rem_def sgn_if)

lemma js_add_Undefined: "js_add a Undefined = NaN"
  by (cases "ToNumber a") (simp_all add: js_add_def)

lemma js_add_NaN_left: "js_add NaN b = NaN"
  by (simp add: js_add_def)

lemma js_add_NaN_right: "js_add a NaN = NaN"
  by (cases "ToNumber a") (simp_all add: js_add_def)

lemma js_mul_NaN_left: "js_mul NaN b = NaN"
  by (simp add: js_mul_def)

lemma js_sub_NaN_left: "js_sub NaN b = NaN"
  by (simp add: js_sub_def)

lemma js_rem_NaN: "js_rem NaN b = NaN"
  by (simp add: js_rem_def)

lemma natToString_digit: "n < radix \<Longrightarrow> natToString radix n = [digitChar n]"
  by (simp add: natToString.simps)

lemma js_rem_Num: "js_rem (Num x) (Num y) = (if y = 0 then NaN else Num (sgn x * (\<bar>x\<bar> mod \<bar>y\<bar>)))"
  by (simp add: js_rem_def)

lemmas js_arith = js_add_Num js_sub_Num js_mul_Num js_rem_Num js_add_NaN_left js_add_NaN_right
  js_add_Undefined js_mul_NaN_left js_sub_NaN_left js_rem_NaN

lemmas hm_eval2 = Number_def isWhiteSpace_def elemAt_def getKey_def setKey_def js_arith join_def
  numToString_def natToString_digit digitChar_def str16_def


lemma ToString_bit: "ToString (bitNum x) = [bitChar x]"
  by (simp add: bitNum_def numToString_def natToString_digit digitChar_def bitChar_def)

lemma joinElem_bit: "joinElem (bitNum x) = [bitChar x]"
  by (simp add: bitNum_def numToString_def natToString_digit digitChar_def bitChar_def)

lemma Number_bitChar: "Number (bitChar x) = bitNum x"
  by (simp add: Number_def bitChar_def bitNum_def)

lemma parity3:
  "js_rem (js_add (js_add (bitNum x) (bitNum y)) (bitNum z)) (Num 2) =
     bitNum ((x \<noteq> y) \<noteq> z)"
  by (cases x; cases y; cases z; simp add: bitNum_def js_add_Num js_rem_Num2)

lemma parity4:
  "js_rem (js_add (js_add (js_add (bitNum w) (bitNum x)) (bitNum y)) (bitNum z)) (Num 2) =
     bitNum (((w \<noteq> x) \<noteq> y) \<noteq> z)"
  by (cases w; cases x; cases y; cases z; simp add: bitNum_def js_add_Num js_rem_Num2)

lemma flipped_bit:
  "(if strict_eq (bitNum x) (Num 0) then Num 1 else Num 0) = bitNum (\<not> x)"
  by (simp add: bitNum_def)

lemma errorPos_bits:
  "js_add (js_add (bitNum s1) (js_mul (bitNum s2) (Num 2))) (js_mul (bitNum s3) (Num 4)) =
     Num (syndromePos s1 s2 s3)"
  by (simp add: bitNum_def js_add_Num js_mul_Num syndromePos_def)

lemma flip_bitChar: "(if bitChar x = 0x30 then 0x31 else 0x30) = bitChar (\<not> x)"
  by (simp add: bitChar_def)

lemma bitChar_bitOf: "c = 0x30 \<or> c = 0x31 \<Longrightarrow> bitChar (bitOf c) = c"
  by (auto simp: bitChar_def bitOf_def)

lemma bitOf_bitChar: "bitOf (bitChar x) = x"
  by (simp add: bitChar_def bitOf_def)

text \<open>Every binary string of four characters is four bits.\<close>

lemma binary4_cases:
  assumes "length d = 4" and "isBinary d"
  obtains a b c e where "d = [bitChar a, bitChar b, bitChar c, bitChar e]"
proof -
  from assms(1) obtain w x y z where d: "d = [w, x, y, z]"
    by (auto simp: length_Suc_conv numeral_eq_Suc)
  with assms(2) have "w = bitChar (bitOf w)" "x = bitChar (bitOf x)"
    "y = bitChar (bitOf y)" "z = bitChar (bitOf z)"
    by (simp_all add: isBinary_def bitChar_bitOf)
  with d that show thesis by metis
qed

subsection \<open>The encoder and the decoder on bits\<close>

lemma encode_bits:
  "Hamming_encode [bitChar a, bitChar b, bitChar c, bitChar e] =
     [bitChar ((a \<noteq> b) \<noteq> e), bitChar ((a \<noteq> c) \<noteq> e), bitChar a,
      bitChar ((b \<noteq> c) \<noteq> e), bitChar b, bitChar c, bitChar e]"
  by (simp add: Hamming_encode_def Number_bitChar elemAt_def parity3 ToString_bit)

text \<open>
  The decoder on any seven bits: the syndrome bits, the data bit that the syndrome
  selects flipped, and the error position.
\<close>

lemma decode_bits:
  "Hamming_decode [bitChar c1, bitChar c2, bitChar c3, bitChar c4, bitChar c5, bitChar c6,
       bitChar c7] =
    (let s1 = (((c1 \<noteq> c3) \<noteq> c5) \<noteq> c7);
         s2 = (((c2 \<noteq> c3) \<noteq> c6) \<noteq> c7);
         s3 = (((c4 \<noteq> c5) \<noteq> c6) \<noteq> c7)
     in ([bitChar (c3 \<noteq> (s1 \<and> s2 \<and> \<not> s3)), bitChar (c5 \<noteq> (s1 \<and> \<not> s2 \<and> s3)),
          bitChar (c6 \<noteq> (\<not> s1 \<and> s2 \<and> s3)), bitChar (c7 \<noteq> (s1 \<and> s2 \<and> s3))],
         if \<not> s1 \<and> \<not> s2 \<and> \<not> s3 then Null else Num (syndromePos s1 s2 s3)))"
proof -
  define s1 where "s1 = (((c1 \<noteq> c3) \<noteq> c5) \<noteq> c7)"
  define s2 where "s2 = (((c2 \<noteq> c3) \<noteq> c6) \<noteq> c7)"
  define s3 where "s3 = (((c4 \<noteq> c5) \<noteq> c6) \<noteq> c7)"
  let ?b = "[bitNum c1, bitNum c2, bitNum c3, bitNum c4, bitNum c5, bitNum c6, bitNum c7]"
  have b: "map Number [bitChar c1, bitChar c2, bitChar c3, bitChar c4, bitChar c5, bitChar c6,
       bitChar c7] = ?b"
    by (simp add: Number_bitChar)
  have S1: "js_rem (js_add (js_add (js_add (elemAt ?b 0) (elemAt ?b 2)) (elemAt ?b 4))
                 (elemAt ?b 6)) (Num 2) = bitNum s1"
    by (simp add: elemAt_def parity4 s1_def)
  have S2: "js_rem (js_add (js_add (js_add (elemAt ?b 1) (elemAt ?b 2)) (elemAt ?b 5))
                 (elemAt ?b 6)) (Num 2) = bitNum s2"
    by (simp add: elemAt_def parity4 s2_def)
  have S3: "js_rem (js_add (js_add (js_add (elemAt ?b 3) (elemAt ?b 4)) (elemAt ?b 5))
                 (elemAt ?b 6)) (Num 2) = bitNum s3"
    by (simp add: elemAt_def parity4 s3_def)
  have "Hamming_decode [bitChar c1, bitChar c2, bitChar c3, bitChar c4, bitChar c5, bitChar c6,
       bitChar c7] =
     ([bitChar (c3 \<noteq> (s1 \<and> s2 \<and> \<not> s3)), bitChar (c5 \<noteq> (s1 \<and> \<not> s2 \<and> s3)),
          bitChar (c6 \<noteq> (\<not> s1 \<and> s2 \<and> s3)), bitChar (c7 \<noteq> (s1 \<and> s2 \<and> s3))],
         if \<not> s1 \<and> \<not> s2 \<and> \<not> s3 then Null else Num (syndromePos s1 s2 s3))"
    unfolding Hamming_decode_def Let_def b S1 S2 S3 errorPos_bits
    by (cases s1; cases s2; cases s3;
        simp add: syndromePos_def js_sub_Num getKey_def setKey_def flipped_bit elemAt_def
          join_def joinElem_bit)
  then show ?thesis
    unfolding Let_def s1_def s2_def s3_def .
qed

lemma decode_encode_bits:
  "Hamming_decode [bitChar ((a \<noteq> b) \<noteq> e), bitChar ((a \<noteq> c) \<noteq> e), bitChar a,
      bitChar ((b \<noteq> c) \<noteq> e), bitChar b, bitChar c, bitChar e] =
     ([bitChar a, bitChar b, bitChar c, bitChar e], Null)"
  unfolding decode_bits
  by (cases a; cases b; cases c; cases e; simp add: Let_def)

lemma decode_flip_bits:
  assumes "k \<in> {1, 2, 3, 4, 5, 6, 7::nat}"
  shows "Hamming_decode (flipAt [bitChar ((a \<noteq> b) \<noteq> e), bitChar ((a \<noteq> c) \<noteq> e), bitChar a,
      bitChar ((b \<noteq> c) \<noteq> e), bitChar b, bitChar c, bitChar e] (k - 1)) =
      ([bitChar a, bitChar b, bitChar c, bitChar e], Num (int k))"
  using assms
  apply (elim insertE emptyE)
  apply (simp_all add: flipAt_def flip_bitChar decode_bits)
  apply (cases a; cases b; cases c; cases e; simp add: Let_def syndromePos_def)+
  done

subsection \<open>Inputs of the wrong length\<close>

text \<open>Only the first seven elements matter to the decoder, only the first four to the
  encoder; a missing element makes the parities \<open>NaN\<close>.\<close>

lemma js_rem2_cases:
  obtains "js_rem x (Num 2) = NaN" | r where "js_rem x (Num 2) = Num r" and "r \<le> 1"
proof (cases "ToNumber x")
  case (Num n)
  have "sgn n * (\<bar>n\<bar> mod 2) \<le> 1"
    by (cases "n < 0") (simp_all add: sgn_if, presburger+)
  with Num that(2) show thesis
    by (simp add: js_rem_def)
qed (use that(1) in \<open>simp_all add: js_rem_def\<close>)

lemma errorPos_range:
  obtains "js_add (js_add (js_rem x (Num 2)) (js_mul (js_rem y (Num 2)) (Num 2)))
             (js_mul (js_rem z (Num 2)) (Num 4)) = NaN"
  | j where "js_add (js_add (js_rem x (Num 2)) (js_mul (js_rem y (Num 2)) (Num 2)))
             (js_mul (js_rem z (Num 2)) (Num 4)) = Num j" and "j \<le> 7"
proof -
  show thesis
  proof (cases x rule: js_rem2_cases)
    case 1
    with that(1) show thesis by (simp add: js_add_NaN_left)
  next
    case (2 r1)
    show thesis
    proof (cases y rule: js_rem2_cases)
      case 1
      with that(1) show thesis
        by (simp add: js_add_NaN_left js_add_NaN_right js_mul_NaN_left)
    next
      case y: (2 r2)
      show thesis
      proof (cases z rule: js_rem2_cases)
        case 1
        with that(1) show thesis
          by (simp add: js_add_NaN_right js_mul_NaN_left)
      next
        case z: (2 r3)
        from 2 y z have "r1 + r2 * 2 + r3 * 4 \<le> 7"
          by simp
        with 2 y z that(2) show thesis
          by (simp add: js_add_def js_mul_def)
      qed
    qed
  qed
qed

lemma elemAt_take: "i < n \<Longrightarrow> elemAt (map f (take n s)) i = elemAt (map f s) i"
  by (simp add: elemAt_def)

lemma encode_take: "4 \<le> length s \<Longrightarrow> Hamming_encode (take 4 s) = Hamming_encode s"
  by (simp add: Hamming_encode_def Let_def elemAt_take)

lemma getKey_take:
  assumes "7 \<le> length b" and "k = NaN \<or> (\<exists>i. k = Num i \<and> i \<le> 6)"
  shows "getKey (take 7 b) k = getKey b k"
proof -
  from assms(1) have l: "length (take 7 b) = 7"
    by simp
  from assms(2) show ?thesis
  proof
    assume "k = NaN"
    then show ?thesis by (simp add: getKey_def)
  next
    assume "\<exists>i. k = Num i \<and> i \<le> 6"
    then obtain i where k: "k = Num i" and i: "i \<le> 6" by blast
    show ?thesis
    proof (cases "0 \<le> i")
      case True
      with i have "nat i < 7" by simp
      with assms(1) True show ?thesis
        unfolding k getKey_def by (simp add: l)
    next
      case False
      then show ?thesis
        unfolding k getKey_def by simp
    qed
  qed
qed

lemma setKey_take:
  assumes "7 \<le> length b" and "k = NaN \<or> (\<exists>i. k = Num i \<and> i \<le> 6)" and "idx < 7"
  shows "elemAt (setKey (take 7 b) k v) idx = elemAt (setKey b k v) idx"
proof -
  from assms(1) have l: "length (take 7 b) = 7"
    by simp
  from assms(1,3) have e: "elemAt (take 7 b) idx = elemAt b idx"
    by (simp add: elemAt_def)
  from assms(2) show ?thesis
  proof
    assume "k = NaN"
    then show ?thesis by (simp add: setKey_def e)
  next
    assume "\<exists>i. k = Num i \<and> i \<le> 6"
    then obtain i where k: "k = Num i" and i: "i \<le> 6" by blast
    show ?thesis
    proof (cases "0 \<le> i")
      case True
      with i have n: "nat i < 7" by simp
      with assms(1) have n': "nat i < length b" by simp
      from True n n' assms(1,3) show ?thesis
        unfolding k setKey_def elemAt_def by (simp add: l nth_list_update)
    next
      case False
      then show ?thesis
        unfolding k setKey_def by (simp add: e)
    qed
  qed
qed

lemma decode_take:
  assumes "7 \<le> length s"
  shows "Hamming_decode (take 7 s) = Hamming_decode s"
proof -
  define b where "b = map Number s"
  from assms have len: "7 \<le> length b"
    by (simp add: b_def)
  have tb: "map Number (take 7 s) = take 7 b"
    by (simp add: b_def take_map)
  have el: "elemAt (take 7 b) i = elemAt b i" if "i < 7" for i
    using that len by (simp add: elemAt_def)
  have els: "elemAt (take 7 b) 0 = elemAt b 0" "elemAt (take 7 b) 1 = elemAt b 1"
    "elemAt (take 7 b) 2 = elemAt b 2" "elemAt (take 7 b) 3 = elemAt b 3"
    "elemAt (take 7 b) 4 = elemAt b 4" "elemAt (take 7 b) 5 = elemAt b 5"
    "elemAt (take 7 b) 6 = elemAt b 6"
    by (simp_all add: el)
  define E where "E = js_add (js_add
       (js_rem (js_add (js_add (js_add (elemAt b 0) (elemAt b 2)) (elemAt b 4)) (elemAt b 6)) (Num 2))
       (js_mul (js_rem (js_add (js_add (js_add (elemAt b 1) (elemAt b 2)) (elemAt b 5)) (elemAt b 6)) (Num 2)) (Num 2)))
       (js_mul (js_rem (js_add (js_add (js_add (elemAt b 3) (elemAt b 4)) (elemAt b 5)) (elemAt b 6)) (Num 2)) (Num 4))"
  have "E = NaN \<or> (\<exists>j. E = Num j \<and> j \<le> 7)"
    unfolding E_def by (rule errorPos_range) blast+
  then have k: "js_sub E (Num 1) = NaN \<or> (\<exists>i. js_sub E (Num 1) = Num i \<and> i \<le> 6)"
    by (auto simp: js_sub_def)
  note gk = getKey_take [OF len k]
  have sk: "elemAt (setKey (take 7 b) (js_sub E (Num 1)) v) idx =
      elemAt (setKey b (js_sub E (Num 1)) v) idx" if "idx < 7" for idx v
    using len k that by (rule setKey_take)
  have "Hamming_decode s =
      (join [elemAt (if \<not> strict_eq E (Num 0) then setKey b (js_sub E (Num 1))
                 (if strict_eq (getKey b (js_sub E (Num 1))) (Num 0) then Num 1 else Num 0) else b) 2,
             elemAt (if \<not> strict_eq E (Num 0) then setKey b (js_sub E (Num 1))
                 (if strict_eq (getKey b (js_sub E (Num 1))) (Num 0) then Num 1 else Num 0) else b) 4,
             elemAt (if \<not> strict_eq E (Num 0) then setKey b (js_sub E (Num 1))
                 (if strict_eq (getKey b (js_sub E (Num 1))) (Num 0) then Num 1 else Num 0) else b) 5,
             elemAt (if \<not> strict_eq E (Num 0) then setKey b (js_sub E (Num 1))
                 (if strict_eq (getKey b (js_sub E (Num 1))) (Num 0) then Num 1 else Num 0) else b) 6],
       if strict_eq E (Num 0) then Null else E)"
    unfolding Hamming_decode_def Let_def b_def E_def ..
  moreover have "Hamming_decode (take 7 s) =
      (join [elemAt (if \<not> strict_eq E (Num 0) then setKey (take 7 b) (js_sub E (Num 1))
                 (if strict_eq (getKey (take 7 b) (js_sub E (Num 1))) (Num 0) then Num 1 else Num 0) else take 7 b) 2,
             elemAt (if \<not> strict_eq E (Num 0) then setKey (take 7 b) (js_sub E (Num 1))
                 (if strict_eq (getKey (take 7 b) (js_sub E (Num 1))) (Num 0) then Num 1 else Num 0) else take 7 b) 4,
             elemAt (if \<not> strict_eq E (Num 0) then setKey (take 7 b) (js_sub E (Num 1))
                 (if strict_eq (getKey (take 7 b) (js_sub E (Num 1))) (Num 0) then Num 1 else Num 0) else take 7 b) 5,
             elemAt (if \<not> strict_eq E (Num 0) then setKey (take 7 b) (js_sub E (Num 1))
                 (if strict_eq (getKey (take 7 b) (js_sub E (Num 1))) (Num 0) then Num 1 else Num 0) else take 7 b) 6],
       if strict_eq E (Num 0) then Null else E)"
    unfolding Hamming_decode_def Let_def tb E_def els ..
  ultimately show ?thesis
    by (simp add: gk sk el)
qed

lemma encode_short:
  assumes "length s < 4"
  shows "Hamming_encode s =
           str16 ''NaNNaN'' @ ToString (elemAt (map Number s) 0) @ str16 ''NaN'' @
           ToString (elemAt (map Number s) 1) @ ToString (elemAt (map Number s) 2) @
           str16 ''undefined''"
proof -
  from assms have "elemAt (map Number s) 3 = Undefined"
    by (simp add: elemAt_def)
  then show ?thesis
    by (simp add: Hamming_encode_def Let_def js_add_Undefined js_rem_NaN str16_def)
qed

lemma decode_short:
  assumes "length s < 7"
  shows "snd (Hamming_decode s) = NaN"
proof -
  from assms have "elemAt (map Number s) 6 = Undefined"
    by (simp add: elemAt_def)
  then show ?thesis
    by (simp add: Hamming_decode_def Let_def js_add_Undefined js_rem_NaN js_add_NaN_left
        js_mul_NaN_left)
qed

section \<open>Arithmetic of the checksum\<close>

lemma sint_and_mask:
  assumes "n < 32"
  shows "sint ((word_of_int a :: 32 word) AND mask n) = a mod 2 ^ n"
proof -
  have le: "(2::int) ^ n \<le> 2 ^ 31"
    using assms by (intro power_increasing) auto
  have "take_bit n a < 2 ^ n"
    by simp
  then have hi: "take_bit n a < 2 ^ 31"
    using le by (rule less_le_trans)
  have "- (2 ^ 31) \<le> (0::int)"
    by simp
  also have "0 \<le> take_bit n a"
    by simp
  finally have lo: "- (2 ^ 31) \<le> take_bit n a" .
  from lo hi have "signed_take_bit 31 (take_bit n a) = take_bit n a"
    by (rule signed_take_bit_int_eq_self)
  then show ?thesis
    by (simp add: and_mask_wi sint_sbintrunc' take_bit_eq_mod)
qed

lemma js_bitand_8: "js_bitand a 0xFF = a mod 2 ^ 8"
  unfolding js_bitand_def
  using sint_and_mask [of 8 a] by (simp add: mask_eq_exp_minus_1)

lemma js_bitand_16: "js_bitand a 0xFFFF = a mod 2 ^ 16"
  unfolding js_bitand_def
  using sint_and_mask [of 16 a] by (simp add: mask_eq_exp_minus_1)

lemma js_bitand_32: "js_bitand a 0xFFFFFFFF = signed_take_bit 31 a"
proof -
  have "(word_of_int 0xFFFFFFFF :: 32 word) = - 1"
    by simp
  then have "js_bitand a 0xFFFFFFFF = sint (word_of_int a :: 32 word)"
    unfolding js_bitand_def by (simp only: and.right_neutral)
  then show ?thesis
    by (simp add: sint_sbintrunc')
qed

lemma signed_take_bit_31_mod: "signed_take_bit 31 (a::int) mod 2 ^ 32 = a mod 2 ^ 32"
proof -
  have "take_bit 32 (signed_take_bit 31 a) = take_bit 32 a"
    by (simp add: take_bit_signed_take_bit)
  then show ?thesis
    by (simp add: take_bit_eq_mod)
qed

lemma js_bitand_32_nonneg:
  assumes "a mod 2 ^ 32 < 2 ^ 31"
  shows "js_bitand a 0xFFFFFFFF = a mod 2 ^ 32"
proof -
  have "signed_take_bit 31 (a mod 2 ^ 32) = a mod 2 ^ 32"
    using assms by (intro signed_take_bit_int_eq_self) simp_all
  moreover have "signed_take_bit 31 (a mod 2 ^ 32) = signed_take_bit 31 a"
    by (simp add: signed_take_bit_eq_iff_take_bit_eq take_bit_eq_mod)
  ultimately show ?thesis
    by (simp add: js_bitand_32)
qed

lemma js_bitand_32_neg:
  assumes "2 ^ 31 \<le> a mod 2 ^ 32"
  shows "js_bitand a 0xFFFFFFFF = a mod 2 ^ 32 - 2 ^ 32"
proof -
  let ?w = "a mod 2 ^ 32 - 2 ^ 32"
  have "a mod 2 ^ 32 < 2 ^ 32"
    by simp
  then have hi: "?w < 2 ^ 31"
    by simp
  from assms have lo: "- (2 ^ 31) \<le> ?w"
    by simp
  from lo hi have "signed_take_bit 31 ?w = ?w"
    by (rule signed_take_bit_int_eq_self)
  moreover have "signed_take_bit 31 ?w = signed_take_bit 31 a"
    by (simp add: signed_take_bit_eq_iff_take_bit_eq take_bit_eq_mod)
  ultimately show ?thesis
    by (simp add: js_bitand_32)
qed

lemma sumCodes_acc: "sumCodes acc m = acc + sumCodes 0 m"
proof (induction m arbitrary: acc)
  case Nil
  show ?case by simp
next
  case (Cons c cs)
  have "sumCodes acc (c # cs) = acc + uint c + sumCodes 0 cs"
    using Cons.IH [of "acc + uint c"] by simp
  moreover have "sumCodes 0 (c # cs) = uint c + sumCodes 0 cs"
    using Cons.IH [of "0 + uint c"] by simp
  ultimately show ?case by simp
qed

text \<open>The masked number in the integers of the model; it is the code's number on the
  runs that \<open>exactSum\<close> describes.\<close>

lemma checksumValue_8:
  "bitWidth opts = 8 \<Longrightarrow>
     checksumValue m opts = (initialValue opts + sumCodes 0 m) mod 2 ^ 8"
  using sumCodes_acc [of "initialValue opts" m]
  by (simp add: checksumValue_def maskOf_def js_bitand_8)

lemma checksumValue_16:
  "bitWidth opts \<noteq> 8 \<Longrightarrow> bitWidth opts \<noteq> 32 \<Longrightarrow>
     checksumValue m opts = (initialValue opts + sumCodes 0 m) mod 2 ^ 16"
  using sumCodes_acc [of "initialValue opts" m]
  by (simp add: checksumValue_def maskOf_def js_bitand_16)

lemma checksumValue_32:
  "bitWidth opts = 32 \<Longrightarrow>
     checksumValue m opts = signed_take_bit 31 (initialValue opts + sumCodes 0 m)"
  using sumCodes_acc [of "initialValue opts" m]
  by (simp add: checksumValue_def maskOf_def js_bitand_32)

subsection \<open>Hexadecimal rendering\<close>

lemma readHex_append:
  "readHex acc (xs @ ys) = (case readHex acc xs of None \<Rightarrow> None | Some a \<Rightarrow> readHex a ys)"
  by (induction xs arbitrary: acc) (auto split: option.splits)

lemma readHex_zeros: "readHex 0 (replicate k 0x30) = Some 0"
  by (induction k) (auto simp: hexDigit_def)

lemma hexDigit_upper:
  assumes "d < 16"
  shows "hexDigit (if 0x61 \<le> digitChar d \<and> digitChar d \<le> 0x7A then digitChar d - 0x20 else digitChar d) = Some d"
proof -
  from assms have "d \<in> {0,1,2,3,4,5,6,7,8,9,10,11,12,13,14,15}"
    by simp arith
  then show ?thesis
    by (elim insertE emptyE) (simp_all add: digitChar_def hexDigit_def)
qed

lemma readHex_natToString:
  "readHex 0 (toUpperCase (natToString 16 n)) = Some n"
proof (induction n rule: less_induct)
  case (less n)
  show ?case
  proof (cases "n < 16")
    case True
    then show ?thesis
      using hexDigit_upper [of n]
      by (simp add: natToString.simps [of 16 n] toUpperCase_def)
  next
    case False
    then have "n div 16 < n"
      by simp
    then have "readHex 0 (toUpperCase (natToString 16 (n div 16))) = Some (n div 16)"
      by (rule less.IH)
    moreover have "hexDigit (if 0x61 \<le> digitChar (n mod 16) \<and> digitChar (n mod 16) \<le> 0x7A
        then digitChar (n mod 16) - 0x20 else digitChar (n mod 16)) = Some (n mod 16)"
      by (rule hexDigit_upper) simp
    ultimately show ?thesis
      using False
      by (simp add: natToString.simps [of 16 n] toUpperCase_def readHex_append)
  qed
qed

lemma length_natToString:
  "n < 16 ^ k \<Longrightarrow> 0 < k \<Longrightarrow> length (natToString 16 n) \<le> k"
proof (induction n arbitrary: k rule: less_induct)
  case (less n)
  show ?case
  proof (cases "n < 16")
    case True
    then show ?thesis
      using less.prems by (simp add: natToString.simps [of 16 n])
  next
    case False
    with less.prems obtain j where k: "k = Suc j"
      by (cases k) auto
    from False less.prems k have "0 < j"
      by (cases j) auto
    moreover from less.prems k have "n div 16 < 16 ^ j"
      by (simp add: less_mult_imp_div_less mult.commute)
    moreover from False have "n div 16 < n"
      by simp
    ultimately have "length (natToString 16 (n div 16)) \<le> j"
      using less.IH by blast
    then show ?thesis
      using False k by (simp add: natToString.simps [of 16 n])
  qed
qed

lemma natToString_nonempty: "natToString radix n \<noteq> []"
  by (simp add: natToString.simps [of radix n])

text \<open>The rendering of a value below \<open>16 ^ k\<close>: exactly \<open>k\<close> characters, which read
  as the value.\<close>

lemma render_hex:
  assumes "0 \<le> v" and "v < 16 ^ k" and "0 < k"
  shows "length (padStart k 0x30 (toUpperCase (numToString 16 v))) = k"
    and "hexValue (padStart k 0x30 (toUpperCase (numToString 16 v))) = Some (nat v)"
proof -
  from assms(1) have n: "numToString 16 v = natToString 16 (nat v)"
    by (simp add: numToString_def)
  from assms have "nat v < 16 ^ k"
    by (simp add: nat_less_iff)
  then have "length (natToString 16 (nat v)) \<le> k"
    using assms(3) by (rule length_natToString)
  then show "length (padStart k 0x30 (toUpperCase (numToString 16 v))) = k"
    by (simp add: n padStart_def toUpperCase_def)
  show "hexValue (padStart k 0x30 (toUpperCase (numToString 16 v))) = Some (nat v)"
    by (simp add: n padStart_def hexValue_def readHex_append readHex_zeros readHex_natToString)
qed

text \<open>Whatever the width, a masked number that is not negative is what the string reads
  as.\<close>

lemma additiveChecksum_reads:
  assumes "0 \<le> checksumValue m opts"
  shows "hexValue (additiveChecksum m opts) = Some (nat (checksumValue m opts))"
proof -
  from assms have "numToString 16 (checksumValue m opts) =
      natToString 16 (nat (checksumValue m opts))"
    by (simp add: numToString_def)
  then show ?thesis
    by (simp add: additiveChecksum_def padStart_def hexValue_def readHex_append readHex_zeros
        readHex_natToString)
qed

subsection \<open>The checksum string for each width\<close>

text \<open>
  Widths 8 and 16 (the default, taken for every width other than 8 and 32): the string has
  2 and 4 characters and, on an exact sum, reads as the sum modulo \<open>2 ^ 8\<close> and
  \<open>2 ^ 16\<close>. Width 32, on an exact sum: the same with 8 characters as long as bit 31 of
  the sum is clear; when it is set, the masked number is negative and the string carries a
  minus sign.
\<close>

lemma additiveChecksum_8:
  assumes "bitWidth opts = 8"
  shows "length (additiveChecksum m opts) = 2"
    and "exactSum m opts \<Longrightarrow>
         hexValue (additiveChecksum m opts) =
           Some (nat ((initialValue opts + sumCodes 0 m) mod 2 ^ 8))"
proof -
  let ?v = "(initialValue opts + sumCodes 0 m) mod 2 ^ 8"
  have v: "0 \<le> ?v" "?v < 16 ^ 2"
    by simp_all
  have a: "additiveChecksum m opts = padStart 2 0x30 (toUpperCase (numToString 16 ?v))"
    using assms by (simp add: additiveChecksum_def padOf_def checksumValue_8)
  show "length (additiveChecksum m opts) = 2"
    unfolding a using v by (rule render_hex(1)) simp
  show "hexValue (additiveChecksum m opts) = Some (nat ?v)"
    unfolding a using v by (rule render_hex(2)) simp
qed

lemma additiveChecksum_16:
  assumes "bitWidth opts \<noteq> 8" and "bitWidth opts \<noteq> 32"
  shows "length (additiveChecksum m opts) = 4"
    and "exactSum m opts \<Longrightarrow>
         hexValue (additiveChecksum m opts) =
           Some (nat ((initialValue opts + sumCodes 0 m) mod 2 ^ 16))"
proof -
  let ?v = "(initialValue opts + sumCodes 0 m) mod 2 ^ 16"
  have v: "0 \<le> ?v" "?v < 16 ^ 4"
    by simp_all
  have a: "additiveChecksum m opts = padStart 4 0x30 (toUpperCase (numToString 16 ?v))"
    using assms by (simp add: additiveChecksum_def padOf_def checksumValue_16)
  show "length (additiveChecksum m opts) = 4"
    unfolding a using v by (rule render_hex(1)) simp
  show "hexValue (additiveChecksum m opts) = Some (nat ?v)"
    unfolding a using v by (rule render_hex(2)) simp
qed

lemma additiveChecksum_32:
  assumes "bitWidth opts = 32" and "(initialValue opts + sumCodes 0 m) mod 2 ^ 32 < 2 ^ 31"
    and "exactSum m opts"
  shows "length (additiveChecksum m opts) = 8"
    and "hexValue (additiveChecksum m opts) =
           Some (nat ((initialValue opts + sumCodes 0 m) mod 2 ^ 32))"
proof -
  let ?v = "(initialValue opts + sumCodes 0 m) mod 2 ^ 32"
  have v: "0 \<le> ?v" "?v < 16 ^ 8"
    by simp_all
  have "checksumValue m opts = ?v"
    using assms(1,2) sumCodes_acc [of "initialValue opts" m]
    by (simp add: checksumValue_def maskOf_def js_bitand_32_nonneg)
  then have a: "additiveChecksum m opts = padStart 8 0x30 (toUpperCase (numToString 16 ?v))"
    using assms(1) by (simp add: additiveChecksum_def padOf_def)
  show "length (additiveChecksum m opts) = 8"
    unfolding a using v by (rule render_hex(1)) simp
  show "hexValue (additiveChecksum m opts) = Some (nat ?v)"
    unfolding a using v by (rule render_hex(2)) simp
qed

lemma additiveChecksum_32_high:
  assumes "bitWidth opts = 32" and "2 ^ 31 \<le> (initialValue opts + sumCodes 0 m) mod 2 ^ 32"
    and "exactSum m opts"
  shows "checksumValue m opts = (initialValue opts + sumCodes 0 m) mod 2 ^ 32 - 2 ^ 32"
    and "0x2D \<in> set (additiveChecksum m opts)"
    and "hexValue (additiveChecksum m opts) = None"
proof -
  show v: "checksumValue m opts = (initialValue opts + sumCodes 0 m) mod 2 ^ 32 - 2 ^ 32"
    using assms(1,2) sumCodes_acc [of "initialValue opts" m]
    by (simp add: checksumValue_def maskOf_def js_bitand_32_neg)
  have "(initialValue opts + sumCodes 0 m) mod 2 ^ 32 < 2 ^ 32"
    by simp
  with v have neg: "checksumValue m opts < 0"
    by simp
  then show "0x2D \<in> set (additiveChecksum m opts)"
    by (simp add: additiveChecksum_def numToString_def toUpperCase_def padStart_def)
  then obtain xs ys where "additiveChecksum m opts = xs @ 0x2D # ys"
    by (auto simp: in_set_conv_decomp)
  moreover have "readHex acc (xs @ 0x2D # ys) = None" for acc
    by (simp add: readHex_append hexDigit_def split: option.splits)
  ultimately show "hexValue (additiveChecksum m opts) = None"
    by (simp add: hexValue_def)
qed

lemmas cs_eval = additiveChecksum_def checksumValue_def js_bitand_def maskOf_def padOf_def
  numToString_def natToString.simps toUpperCase_def padStart_def str16_def digitChar_def

lemma replicate_numeral_unfold: "replicate (numeral k) c = c # replicate (pred_numeral k) c"
  by (simp add: numeral_eq_Suc)

text \<open>
  Changing only the initial value: the masked numbers shift by the difference modulo
  \<open>2 ^ bitWidth\<close> at every width, and at widths 8 and 16 so do the values that the
  returned strings read as. (At width 32 a negative masked number is rendered with a minus
  sign, and the string reads as nothing.)
\<close>

lemma checksumValue_shift:
  assumes "bw = 8 \<or> bw = 16 \<or> bw = 32"
    and "exactSum m \<lparr>bitWidth = bw, initialValue = v1\<rparr>"
    and "exactSum m \<lparr>bitWidth = bw, initialValue = v2\<rparr>"
  shows "checksumValue m \<lparr>bitWidth = bw, initialValue = v2\<rparr> mod 2 ^ nat bw =
           (checksumValue m \<lparr>bitWidth = bw, initialValue = v1\<rparr> + (v2 - v1)) mod 2 ^ nat bw"
proof -
  let ?s = "sumCodes 0 m"
  have shift: "(v2 + ?s) mod n = ((v1 + ?s) mod n + (v2 - v1)) mod n" for n :: int
  proof -
    have "((v1 + ?s) mod n + (v2 - v1)) mod n = ((v1 + ?s) + (v2 - v1)) mod n"
      by (rule mod_add_left_eq)
    then show ?thesis
      by (simp add: algebra_simps)
  qed
  from assms(1) consider "bw = 8" | "bw = 16" | "bw = 32"
    by blast
  then show ?thesis
  proof cases
    case 1
    then show ?thesis
      using shift [of "2 ^ 8"] by (simp add: checksumValue_8)
  next
    case 2
    then show ?thesis
      using shift [of "2 ^ 16"] by (simp add: checksumValue_16)
  next
    case 3
    have "signed_take_bit 31 (v2 + ?s) mod 2 ^ 32 = (v2 + ?s) mod 2 ^ 32"
      by (rule signed_take_bit_31_mod)
    also have "\<dots> = ((v1 + ?s) mod 2 ^ 32 + (v2 - v1)) mod 2 ^ 32"
      by (rule shift)
    also have "\<dots> = (signed_take_bit 31 (v1 + ?s) mod 2 ^ 32 + (v2 - v1)) mod 2 ^ 32"
      by (simp only: signed_take_bit_31_mod)
    also have "\<dots> = (signed_take_bit 31 (v1 + ?s) + (v2 - v1)) mod 2 ^ 32"
      by (simp only: mod_add_left_eq)
    finally show ?thesis
      using 3 by (simp add: checksumValue_32)
  qed
qed

lemma initialValue_shift_8_16:
  assumes "bw = 8 \<or> bw = 16"
    and "exactSum m \<lparr>bitWidth = bw, initialValue = v1\<rparr>"
    and "exactSum m \<lparr>bitWidth = bw, initialValue = v2\<rparr>"
  shows "\<exists>n1 n2.
           hexValue (additiveChecksum m \<lparr>bitWidth = bw, initialValue = v1\<rparr>) = Some n1 \<and>
           hexValue (additiveChecksum m \<lparr>bitWidth = bw, initialValue = v2\<rparr>) = Some n2 \<and>
           int n2 mod 2 ^ nat bw = (int n1 + (v2 - v1)) mod 2 ^ nat bw"
proof -
  let ?c1 = "checksumValue m \<lparr>bitWidth = bw, initialValue = v1\<rparr>"
  let ?c2 = "checksumValue m \<lparr>bitWidth = bw, initialValue = v2\<rparr>"
  have nonneg: "0 \<le> checksumValue m \<lparr>bitWidth = bw, initialValue = v\<rparr>" for v
  proof (cases "bw = 8")
    case True
    then show ?thesis by (simp add: checksumValue_8)
  next
    case False
    with assms(1) show ?thesis by (simp add: checksumValue_16)
  qed
  from assms(1) have w: "bw = 8 \<or> bw = 16 \<or> bw = 32"
    by blast
  have "hexValue (additiveChecksum m \<lparr>bitWidth = bw, initialValue = v1\<rparr>) = Some (nat ?c1)"
    using nonneg by (rule additiveChecksum_reads)
  moreover have "hexValue (additiveChecksum m \<lparr>bitWidth = bw, initialValue = v2\<rparr>) =
      Some (nat ?c2)"
    using nonneg by (rule additiveChecksum_reads)
  moreover have "int (nat ?c2) mod 2 ^ nat bw = (int (nat ?c1) + (v2 - v1)) mod 2 ^ nat bw"
    using checksumValue_shift [OF w assms(2,3)] nonneg [of v1] nonneg [of v2] by simp
  ultimately show ?thesis
    by blast
qed

text \<open>The examples of the specification for widths 16 and 8: "A" gives "0041", a sum of
  256 gives "00" and a sum of 257 gives "01".\<close>

lemma additiveChecksum_examples:
  "additiveChecksum (str16 ''A'') \<lparr>bitWidth = 16, initialValue = 0\<rparr> = str16 ''0041'' \<and>
   additiveChecksum [0x100] \<lparr>bitWidth = 8, initialValue = 0\<rparr> = str16 ''00'' \<and>
   additiveChecksum [0x101] \<lparr>bitWidth = 8, initialValue = 0\<rparr> = str16 ''01''"
  by (simp add: cs_eval replicate_numeral_unfold)

section \<open>Hamming (7,4): the properties\<close>

text \<open>
  C3. For every 4-character binary payload with bits d0, d1, d2, d3 in input order,
  \<open>Hamming.encode\<close> returns the 7-character codeword [p1, p2, d0, p3, d1, d2, d3]
  with p1 = d0 XOR d1 XOR d3, p2 = d0 XOR d2 XOR d3 and p3 = d1 XOR d2 XOR d3; for the
  payload "1011" the codeword is "0110011".
\<close>

theorem Hamming_encode_layout:
  assumes "length d = 4" and "isBinary d"
  shows "Hamming_encode d =
           [xor3 (d ! 0) (d ! 1) (d ! 3), xor3 (d ! 0) (d ! 2) (d ! 3), d ! 0,
            xor3 (d ! 1) (d ! 2) (d ! 3), d ! 1, d ! 2, d ! 3]
         \<and> Hamming_encode (str16 ''1011'') = str16 ''0110011''"
proof
  from assms obtain a b c e where d: "d = [bitChar a, bitChar b, bitChar c, bitChar e]"
    by (rule binary4_cases)
  show "Hamming_encode d =
           [xor3 (d ! 0) (d ! 1) (d ! 3), xor3 (d ! 0) (d ! 2) (d ! 3), d ! 0,
            xor3 (d ! 1) (d ! 2) (d ! 3), d ! 1, d ! 2, d ! 3]"
    unfolding d encode_bits by (simp add: xor3_def bitOf_bitChar)
  have "str16 ''1011'' = [bitChar True, bitChar False, bitChar True, bitChar True]"
    by (simp add: str16_def bitChar_def)
  then show "Hamming_encode (str16 ''1011'') = str16 ''0110011''"
    by (simp add: encode_bits) (simp add: str16_def bitChar_def)
qed

theorem Hamming_encode_layout_witness:
  "length (str16 ''0110'') = 4 \<and> isBinary (str16 ''0110'') \<and>
   Hamming_encode (str16 ''0110'') = str16 ''1100110''"
proof -
  have l: "length (str16 ''0110'') = 4"
    by (simp add: str16_def)
  have b: "isBinary (str16 ''0110'')"
    by (simp add: str16_def isBinary_def)
  show ?thesis
    using l b Hamming_encode_layout [OF l b]
    by (simp add: str16_def xor3_def bitOf_def bitChar_def)
qed

text \<open>
  C2. For every 4-character binary payload d, decoding the unmodified codeword
  \<open>Hamming.encode(d)\<close> returns the corrected payload d and no error position
  (\<open>errorPos\<close> is \<open>null\<close>).
\<close>

theorem Hamming_round_trip:
  assumes "length d = 4" and "isBinary d"
  shows "Hamming_decode (Hamming_encode d) = (d, Null)"
proof -
  from assms obtain a b c e where d: "d = [bitChar a, bitChar b, bitChar c, bitChar e]"
    by (rule binary4_cases)
  show ?thesis
    unfolding d encode_bits by (rule decode_encode_bits)
qed

theorem Hamming_round_trip_witness:
  "length (str16 ''1011'') = 4 \<and> isBinary (str16 ''1011'') \<and>
   Hamming_decode (Hamming_encode (str16 ''1011'')) = (str16 ''1011'', Null)"
proof -
  have l: "length (str16 ''1011'') = 4"
    by (simp add: str16_def)
  have b: "isBinary (str16 ''1011'')"
    by (simp add: str16_def isBinary_def)
  show ?thesis
    using l b Hamming_round_trip [OF l b] by simp
qed

text \<open>
  C1. For every 4-character binary payload d and every bit position k in 1..7, flipping
  exactly the bit at position k of \<open>Hamming.encode(d)\<close> (index k - 1 of the string) and
  decoding the result yields the corrected payload d and the error position k.
\<close>

theorem Hamming_single_error:
  assumes "length d = 4" and "isBinary d" and "1 \<le> k" and "k \<le> 7"
  shows "Hamming_decode (flipAt (Hamming_encode d) (k - 1)) = (d, Num (int k))"
proof -
  from assms(1,2) obtain a b c e where d: "d = [bitChar a, bitChar b, bitChar c, bitChar e]"
    by (rule binary4_cases)
  from assms(3,4) have k: "k \<in> {1, 2, 3, 4, 5, 6, 7}"
    by auto
  show ?thesis
    unfolding d encode_bits by (rule decode_flip_bits [OF k])
qed

theorem Hamming_single_error_witness:
  "length (str16 ''1011'') = 4 \<and> isBinary (str16 ''1011'') \<and> (1::nat) \<le> 5 \<and> (5::nat) \<le> 7 \<and>
   flipAt (Hamming_encode (str16 ''1011'')) (5 - 1) = str16 ''0110111'' \<and>
   Hamming_decode (str16 ''0110111'') = (str16 ''1011'', Num 5)"
proof -
  have l: "length (str16 ''1011'') = 4"
    by (simp add: str16_def)
  have b: "isBinary (str16 ''1011'')"
    by (simp add: str16_def isBinary_def)
  have e: "Hamming_encode (str16 ''1011'') = str16 ''0110011''"
    using encode_bits [of True False True True] by (simp add: str16_def bitChar_def)
  have f: "flipAt (str16 ''0110011'') 4 = str16 ''0110111''"
    by (simp add: flipAt_def str16_def)
  show ?thesis
    using l b Hamming_single_error [OF l b, of 5] by (simp add: e f)
qed

text \<open>
  C7, as stated: for an input that is not a strict binary string of the required length,
  \<open>Hamming.encode\<close> and \<open>Hamming.decode\<close> fail instead of returning a result. They
  return a result: "101", "10121" and "1021" are encoded, "011001" and "01100112" are
  decoded.
\<close>

theorem Hamming_invalid_input_counterexample:
  "Hamming_encode (str16 ''101'') = str16 ''NaNNaN1NaN01undefined'' \<and>
   Hamming_encode (str16 ''10121'') = str16 ''1011012'' \<and>
   Hamming_encode (str16 ''1021'') = str16 ''0011021'' \<and>
   Hamming_decode (str16 ''011001'') = (str16 ''101'', NaN) \<and>
   Hamming_decode (str16 ''01100112'') = (str16 ''1011'', Null)"
proof -
  have "Hamming_encode (str16 ''101'') = str16 ''NaNNaN1NaN01undefined''"
    by (simp add: Hamming_encode_def hm_eval2)
  moreover have "Hamming_encode (str16 ''10121'') = str16 ''1011012''"
    by (simp add: Hamming_encode_def hm_eval2)
  moreover have "Hamming_encode (str16 ''1021'') = str16 ''0011021''"
    by (simp add: Hamming_encode_def hm_eval2)
  moreover have "Hamming_decode (str16 ''011001'') = (str16 ''101'', NaN)"
    by (simp add: Hamming_decode_def hm_eval2)
  moreover have "Hamming_decode (str16 ''01100112'') = (str16 ''1011'', Null)"
    by (simp add: Hamming_decode_def hm_eval2)
  ultimately show ?thesis
    by blast
qed

text \<open>
  C7, amended: \<open>Hamming.encode\<close> and \<open>Hamming.decode\<close> validate nothing and return a
  result for every input. An input longer than 4 (7) characters gives the result of its
  first 4 (7) characters; a payload shorter than 4 gives a string that starts with
  "NaNNaN" and ends with "undefined"; a codeword shorter than 7 gives the error position
  \<open>NaN\<close>. The length check is the caller's: \<open>runHamming\<close> changes nothing unless the
  payload has exactly 4 characters.
\<close>

theorem Hamming_no_validation:
  "(4 \<le> length s \<longrightarrow> Hamming_encode s = Hamming_encode (take 4 s)) \<and>
   (length s < 4 \<longrightarrow>
      Hamming_encode s =
        str16 ''NaNNaN'' @ ToString (elemAt (map Number s) 0) @ str16 ''NaN'' @
        ToString (elemAt (map Number s) 1) @ ToString (elemAt (map Number s) 2) @
        str16 ''undefined'') \<and>
   (7 \<le> length s \<longrightarrow> Hamming_decode s = Hamming_decode (take 7 s)) \<and>
   (length s < 7 \<longrightarrow> snd (Hamming_decode s) = NaN) \<and>
   (length s \<noteq> 4 \<longrightarrow> runHamming s hammingResult = hammingResult)"
  using encode_take [of s] encode_short [of s] decode_take [of s] decode_short [of s]
  by (simp add: runHamming_def)

theorem Hamming_no_validation_witness:
  "Hamming_encode (str16 ''10121'') = Hamming_encode (str16 ''1012'') \<and>
   Hamming_encode (str16 ''101'') = str16 ''NaNNaN1NaN01undefined'' \<and>
   Hamming_decode (str16 ''01100112'') = Hamming_decode (str16 ''0110011'') \<and>
   snd (Hamming_decode (str16 ''011001'')) = NaN \<and>
   runHamming (str16 ''10121'') None = None"
proof -
  have l: "4 \<le> length (str16 ''10121'')" "length (str16 ''101'') < 4"
    "7 \<le> length (str16 ''01100112'')" "length (str16 ''011001'') < 7"
    "length (str16 ''10121'') \<noteq> 4"
    by (simp_all add: str16_def)
  have t: "take 4 (str16 ''10121'') = str16 ''1012''"
    "take 7 (str16 ''01100112'') = str16 ''0110011''"
    by (simp_all add: str16_def)
  have n: "str16 ''NaNNaN'' @ ToString (elemAt (map Number (str16 ''101'')) 0) @ str16 ''NaN'' @
        ToString (elemAt (map Number (str16 ''101'')) 1) @
        ToString (elemAt (map Number (str16 ''101'')) 2) @ str16 ''undefined'' =
      str16 ''NaNNaN1NaN01undefined''"
    by (simp add: str16_def elemAt_def Number_def numToString_def natToString_digit digitChar_def)
  note e1 = Hamming_no_validation [of "str16 ''10121''" None, THEN conjunct1, THEN mp, OF l(1)]
  note e2 = Hamming_no_validation [of "str16 ''101''" None, THEN conjunct2, THEN conjunct1,
      THEN mp, OF l(2)]
  note e3 = Hamming_no_validation [of "str16 ''01100112''" None, THEN conjunct2, THEN conjunct2,
      THEN conjunct1, THEN mp, OF l(3)]
  note e4 = Hamming_no_validation [of "str16 ''011001''" None, THEN conjunct2, THEN conjunct2,
      THEN conjunct2, THEN conjunct1, THEN mp, OF l(4)]
  note e5 = Hamming_no_validation [of "str16 ''10121''" None, THEN conjunct2, THEN conjunct2,
      THEN conjunct2, THEN conjunct2, THEN mp, OF l(5)]
  from e1 e2 e3 e4 e5 show ?thesis
    unfolding t n by (intro conjI)
qed

section \<open>Error injection: the properties\<close>

text \<open>
  C9. For every 7-character binary codeword c (the received word of the state) and every
  index i in [0, 6], \<open>flipBit\<close> puts in its place a 7-character binary codeword that
  differs from c exactly at position i, where 0 became 1 and 1 became 0, and flipping the
  same index again gives c back.
\<close>

theorem flipBit_toggles_one_bit:
  assumes "length (received r) = 7" and "isBinary (received r)" and "i < 7"
  shows "map_option received (flipBit i (Some r)) = Some (flipAt (received r) i) \<and>
         length (flipAt (received r) i) = 7 \<and>
         isBinary (flipAt (received r) i) \<and>
         (received r ! i = 0x30 \<longrightarrow> flipAt (received r) i ! i = 0x31) \<and>
         (received r ! i = 0x31 \<longrightarrow> flipAt (received r) i ! i = 0x30) \<and>
         (\<forall>j < 7. j \<noteq> i \<longrightarrow> flipAt (received r) i ! j = received r ! j) \<and>
         flipAt (flipAt (received r) i) i = received r \<and>
         map_option received (flipBit i (flipBit i (Some r))) = Some (received r)"
proof -
  let ?c = "received r"
  from assms(1,3) have i: "i < length ?c"
    by simp
  then have "?c ! i \<in> set ?c"
    by simp
  with assms(2) have bit: "?c ! i = 0x30 \<or> ?c ! i = 0x31"
    by (simp add: isBinary_def)
  have f: "flipAt ?c i = ?c[i := (if ?c ! i = 0x30 then 0x31 else 0x30)]"
    using i by (simp add: flipAt_def)
  have rcv: "map_option received (flipBit j (Some x)) = Some (flipAt (received x) j)" for j x
    by (simp add: flipBit_def Let_def split: prod.splits)
  have len: "length (flipAt ?c i) = 7"
    using assms(1) by (simp add: f)
  have bin: "isBinary (flipAt ?c i)"
    using assms(2) set_update_subset_insert [of ?c i]
    by (auto simp: f isBinary_def)
  have inv: "flipAt (flipAt ?c i) i = ?c"
    using bit i by (auto simp: f flipAt_def list_update_same_conv)
  have twice: "map_option received (flipBit i (flipBit i (Some r))) = Some ?c"
  proof -
    obtain x where x: "flipBit i (Some r) = Some x" and rx: "received x = flipAt ?c i"
      using rcv [of i r] by (auto simp: map_option_case split: option.splits)
    show ?thesis
      unfolding x using rcv [of i x] by (simp add: rx inv)
  qed
  show ?thesis
    using i by (simp add: rcv len bin inv twice) (simp add: f)
qed

theorem flipBit_toggles_one_bit_witness:
  "map_option received (flipBit 4 (Some \<lparr>original = str16 ''1011'', encoded = str16 ''0110011'',
       received = str16 ''0110011'', corrected = str16 ''1011'', errorPosition = Null\<rparr>)) =
     Some (str16 ''0110111'') \<and>
   map_option received (flipBit 4 (flipBit 4 (Some \<lparr>original = str16 ''1011'',
       encoded = str16 ''0110011'', received = str16 ''0110011'', corrected = str16 ''1011'',
       errorPosition = Null\<rparr>))) = Some (str16 ''0110011'')"
proof -
  let ?r = "\<lparr>original = str16 ''1011'', encoded = str16 ''0110011'',
       received = str16 ''0110011'', corrected = str16 ''1011'', errorPosition = Null\<rparr>"
  have l: "length (received ?r) = 7"
    by (simp add: str16_def)
  have b: "isBinary (received ?r)"
    by (simp add: str16_def isBinary_def)
  have i: "(4::nat) < 7"
    by simp
  have f: "flipAt (str16 ''0110011'') 4 = str16 ''0110111''"
    by (simp add: flipAt_def str16_def)
  show ?thesis
    using flipBit_toggles_one_bit [OF l b i] by (simp add: f)
qed

section \<open>Additive checksum: the properties\<close>

text \<open>
  C4. For every message and every config with bitWidth in {8, 16, 32} and non-negative
  integer initialValue, the checksum is (initialValue + sum of the code units) mod
  2 ^ bitWidth as an upper-case hexadecimal string of exactly bitWidth / 4 characters.
  On sums that its numbers hold exactly, the code does so for widths 8 and 16
  (\<open>additiveChecksum_8\<close>, \<open>additiveChecksum_16\<close>) and for width 32 while bit 31 of the
  sum is clear (\<open>additiveChecksum_32\<close>). With bit 31
  set it does not: for the message "A", width 32 and initialValue 2147483647 the sum is
  0x80000040, and the result is the 9-character string "-7FFFFFC0", which is no
  hexadecimal numeral.
\<close>

theorem additiveChecksum_32_signed:
  "additiveChecksum (str16 ''A'') \<lparr>bitWidth = 32, initialValue = 2147483647\<rparr> =
     str16 ''-7FFFFFC0'' \<and>
   length (additiveChecksum (str16 ''A'') \<lparr>bitWidth = 32, initialValue = 2147483647\<rparr>) = 9 \<and>
   hexValue (additiveChecksum (str16 ''A'') \<lparr>bitWidth = 32, initialValue = 2147483647\<rparr>) = None \<and>
   (2147483647 + sumCodes 0 (str16 ''A'')) mod 2 ^ 32 = 0x80000040 \<and>
   exactSum (str16 ''A'') \<lparr>bitWidth = 32, initialValue = 2147483647\<rparr>"
proof -
  have a: "additiveChecksum (str16 ''A'') \<lparr>bitWidth = 32, initialValue = 2147483647\<rparr> =
     str16 ''-7FFFFFC0''"
    by (simp add: cs_eval)
  have s: "sumCodes 0 (str16 ''A'') = 65"
    by (simp add: str16_def)
  show ?thesis
    unfolding a by (simp add: s exactSum_def) (simp add: str16_def hexValue_def hexDigit_def)
qed

text \<open>
  C10. For every algorithm and every present or absent additive config, the exported
  \<open>calculateChecksum\<close> applied to the empty string returns the empty string.
\<close>

theorem calculateChecksum_empty:
  "calculateChecksum [] algorithm additiveOptions = []"
  by (simp add: calculateChecksum_def)

text \<open>
  C5, as stated: for the empty message the checksum operation exposed to the caller
  returns the formatted initialValue, "0000" for width 16 and initialValue 0. The exported
  \<open>calculateChecksum\<close> returns the empty string there.
\<close>

theorem empty_message_exposed_counterexample:
  "calculateChecksum (str16 []) ADDITIVE (Some \<lparr>bitWidth = 16, initialValue = 0\<rparr>) \<noteq>
     str16 ''0000''"
  by (simp add: calculateChecksum_def str16_def)

text \<open>
  C5, amended: for the empty message the engine \<open>additiveChecksum\<close> returns the masked
  and formatted initialValue, never an empty string: "0000", "00" and "00000000" for widths
  16, 8 and 32 with initialValue 0. The exported \<open>calculateChecksum\<close> does not reach the
  engine for the empty message and returns the empty string.
\<close>

theorem additiveChecksum_empty_message:
  "additiveChecksum [] \<lparr>bitWidth = 16, initialValue = 0\<rparr> = str16 ''0000'' \<and>
   additiveChecksum [] \<lparr>bitWidth = 8, initialValue = 0\<rparr> = str16 ''00'' \<and>
   additiveChecksum [] \<lparr>bitWidth = 32, initialValue = 0\<rparr> = str16 ''00000000'' \<and>
   additiveChecksum [] opts =
     padStart (padOf (bitWidth opts)) 0x30
       (toUpperCase (numToString 16 (js_bitand (initialValue opts) (maskOf (bitWidth opts))))) \<and>
   additiveChecksum [] opts \<noteq> [] \<and>
   calculateChecksum [] algorithm (Some opts) = []"
proof -
  have "additiveChecksum [] \<lparr>bitWidth = 16, initialValue = 0\<rparr> = str16 ''0000''"
    by (simp add: cs_eval replicate_numeral_unfold)
  moreover have "additiveChecksum [] \<lparr>bitWidth = 8, initialValue = 0\<rparr> = str16 ''00''"
    by (simp add: cs_eval replicate_numeral_unfold)
  moreover have "additiveChecksum [] \<lparr>bitWidth = 32, initialValue = 0\<rparr> = str16 ''00000000''"
    by (simp add: cs_eval replicate_numeral_unfold)
  moreover have "additiveChecksum [] opts =
     padStart (padOf (bitWidth opts)) 0x30
       (toUpperCase (numToString 16 (js_bitand (initialValue opts) (maskOf (bitWidth opts)))))"
    by (simp add: additiveChecksum_def checksumValue_def)
  moreover have "additiveChecksum [] opts \<noteq> []"
    by (simp add: additiveChecksum_def padStart_def toUpperCase_def numToString_def
        natToString_nonempty)
  moreover have "calculateChecksum [] algorithm (Some opts) = []"
    by (simp add: calculateChecksum_def)
  ultimately show ?thesis
    by blast
qed

text \<open>
  C6, as stated: a config whose bitWidth is outside {8, 16, 32} makes the checksum
  operation fail. With bitWidth 24 the code returns the checksum string "0041" for "A".
\<close>

theorem unsupported_width_counterexample:
  "additiveChecksum (str16 ''A'') \<lparr>bitWidth = 24, initialValue = 0\<rparr> = str16 ''0041'' \<and>
   calculateChecksum (str16 ''A'') ADDITIVE (Some \<lparr>bitWidth = 24, initialValue = 0\<rparr>) =
     str16 ''0041''"
proof -
  have "additiveChecksum (str16 ''A'') \<lparr>bitWidth = 24, initialValue = 0\<rparr> = str16 ''0041''"
    by (simp add: cs_eval replicate_numeral_unfold)
  then show ?thesis
    by (simp add: calculateChecksum_def) (simp add: str16_def)
qed

text \<open>
  C6, amended: for every message and every config whose bitWidth is neither 8 nor 32 (24
  for instance), the checksum operation reports no error and returns the 16-bit checksum:
  the same string as for bitWidth 16, four characters that read as
  (initialValue + sum of the code units) mod 2 ^ 16.
\<close>

theorem unsupported_width_is_16:
  assumes "bitWidth opts \<noteq> 8" and "bitWidth opts \<noteq> 32"
  shows "additiveChecksum m opts = additiveChecksum m (opts\<lparr>bitWidth := 16\<rparr>) \<and>
         length (additiveChecksum m opts) = 4 \<and>
         (exactSum m opts \<longrightarrow>
            hexValue (additiveChecksum m opts) =
              Some (nat ((initialValue opts + sumCodes 0 m) mod 2 ^ 16)))"
proof -
  have "additiveChecksum m opts = additiveChecksum m (opts\<lparr>bitWidth := 16\<rparr>)"
    using assms by (simp add: additiveChecksum_def checksumValue_def maskOf_def padOf_def)
  then show ?thesis
    using additiveChecksum_16 [OF assms, of m] by simp
qed

theorem unsupported_width_is_16_witness:
  "bitWidth \<lparr>bitWidth = 24, initialValue = 7\<rparr> \<noteq> 8 \<and>
   bitWidth \<lparr>bitWidth = 24, initialValue = 7\<rparr> \<noteq> 32 \<and>
   exactSum (str16 ''AB'') \<lparr>bitWidth = 24, initialValue = 7\<rparr> \<and>
   additiveChecksum (str16 ''AB'') \<lparr>bitWidth = 24, initialValue = 7\<rparr> =
     additiveChecksum (str16 ''AB'') \<lparr>bitWidth = 16, initialValue = 7\<rparr> \<and>
   length (additiveChecksum (str16 ''AB'') \<lparr>bitWidth = 24, initialValue = 7\<rparr>) = 4 \<and>
   hexValue (additiveChecksum (str16 ''AB'') \<lparr>bitWidth = 24, initialValue = 7\<rparr>) = Some 138"
proof -
  have a: "bitWidth \<lparr>bitWidth = 24, initialValue = 7\<rparr> \<noteq> 8"
    by simp
  have b: "bitWidth \<lparr>bitWidth = 24, initialValue = 7\<rparr> \<noteq> 32"
    by simp
  have s: "sumCodes 0 (str16 ''AB'') = 131"
    by (simp add: str16_def)
  have e: "exactSum (str16 ''AB'') \<lparr>bitWidth = 24, initialValue = 7\<rparr>"
    by (simp add: exactSum_def s)
  have u: "\<lparr>bitWidth = 24, initialValue = 7\<rparr>\<lparr>bitWidth := 16\<rparr> =
      \<lparr>bitWidth = 16, initialValue = 7\<rparr>"
    by simp
  have v: "nat ((initialValue \<lparr>bitWidth = 24, initialValue = 7\<rparr> +
      sumCodes 0 (str16 ''AB'')) mod 2 ^ 16) = 138"
    by (simp add: s)
  show ?thesis
    using a b e unsupported_width_is_16 [OF a b, of "str16 ''AB''"]
    unfolding u v by blast
qed

text \<open>
  C8. For a fixed message and a fixed bitWidth in {8, 16, 32} and two initial values v1 and
  v2, the numeric value of the checksum for v2 is the numeric value for v1 plus (v2 - v1),
  modulo 2 ^ bitWidth. The code does so for widths 8 and 16 (\<open>initialValue_shift_8_16\<close>).
  At width 32 it does not: for the message "A", v1 = 4294967230 and v2 = 4294967231 the
  sums are 0xFFFFFFFF and 0x100000000; the checksum for v2 is "00000000", of value 0, so
  the checksum for v1 has to be of value 0xFFFFFFFF, and the code returns "000000-1",
  which is no hexadecimal numeral. The masked number there is -1 (the signed \<open>&\<close> of
  C4), rendered as "-1" and padded in front of the sign.
\<close>

theorem initialValue_shift_32_signed:
  "additiveChecksum (str16 ''A'') \<lparr>bitWidth = 32, initialValue = 4294967230\<rparr> =
     str16 ''000000-1'' \<and>
   additiveChecksum (str16 ''A'') \<lparr>bitWidth = 32, initialValue = 4294967231\<rparr> =
     str16 ''00000000'' \<and>
   hexValue (additiveChecksum (str16 ''A'') \<lparr>bitWidth = 32, initialValue = 4294967230\<rparr>) =
     None \<and>
   hexValue (additiveChecksum (str16 ''A'') \<lparr>bitWidth = 32, initialValue = 4294967231\<rparr>) =
     Some 0 \<and>
   checksumValue (str16 ''A'') \<lparr>bitWidth = 32, initialValue = 4294967230\<rparr> = - 1 \<and>
   (4294967230 + sumCodes 0 (str16 ''A'')) mod 2 ^ 32 = 0xFFFFFFFF \<and>
   (4294967231 + sumCodes 0 (str16 ''A'')) mod 2 ^ 32 = 0 \<and>
   exactSum (str16 ''A'') \<lparr>bitWidth = 32, initialValue = 4294967230\<rparr> \<and>
   exactSum (str16 ''A'') \<lparr>bitWidth = 32, initialValue = 4294967231\<rparr>"
proof -
  have a1: "additiveChecksum (str16 ''A'') \<lparr>bitWidth = 32, initialValue = 4294967230\<rparr> =
     str16 ''000000-1''"
    by (simp add: cs_eval replicate_numeral_unfold)
  have a2: "additiveChecksum (str16 ''A'') \<lparr>bitWidth = 32, initialValue = 4294967231\<rparr> =
     str16 ''00000000''"
    by (simp add: cs_eval replicate_numeral_unfold)
  have c: "checksumValue (str16 ''A'') \<lparr>bitWidth = 32, initialValue = 4294967230\<rparr> = - 1"
    by (simp add: checksumValue_def js_bitand_def maskOf_def str16_def)
  have s: "sumCodes 0 (str16 ''A'') = 65"
    by (simp add: str16_def)
  have h1: "hexValue (str16 ''000000-1'') = None"
    by (simp add: str16_def hexValue_def hexDigit_def)
  have h2: "hexValue (str16 ''00000000'') = Some 0"
    by (simp add: str16_def hexValue_def hexDigit_def)
  show ?thesis
    unfolding a1 a2 h1 h2 c by (simp add: s exactSum_def)
qed

end
